theory Spec2Isabelle
  imports Complex_Main
begin

section \<open>Numbers and errors\<close>

text \<open>
  The clock of \<^verbatim>\<open>smart/model.py\<close> holds \<^verbatim>\<open>decimal.Decimal\<close> values: \<^verbatim>\<open>t\<close>, \<^verbatim>\<open>dt\<close>,
  \<^verbatim>\<open>tn\<close>, \<^verbatim>\<open>final_t\<close> and the histories \<^verbatim>\<open>tvec\<close>, \<^verbatim>\<open>dtvec\<close> are all produced by
  \<^verbatim>\<open>rounded_decimal\<close>.  Decimal addition, subtraction and comparison are exact, so the
  values are modelled as rationals.  A binary float handed to \<^verbatim>\<open>Decimal(x)\<close> is converted
  exactly, so an input float is the rational it denotes.  The default Decimal context
  (28 significant digits, rounding ROUND_HALF_EVEN) is assumed never to overflow.
\<close>

datatype error =
    AssertionError
  | ValueError
  | IndexError
  | RuntimeError
  | AttributeError
  | ZeroDivisionError
  | Exception

text \<open>Rounding to the nearest integer, ties to the even neighbour (ROUND_HALF_EVEN).\<close>

definition round_half_even :: "rat \<Rightarrow> int" where
  "round_half_even x =
     (let f = \<lfloor>x\<rfloor>; r = x - of_int f in
      if r < 1 / 2 then f
      else if 1 / 2 < r then f + 1
      else if even f then f else f + 1)"

text \<open>
  \<^verbatim>\<open>rounded_decimal(x) = Decimal(x).quantize(self._base_t)\<close> with
  \<^verbatim>\<open>_base_t = 10 ** (-time_precision)\<close>.  Python's \<^verbatim>\<open>round(d, time_precision)\<close> on a
  Decimal is the same quantisation, so the model uses this function for it as well.
\<close>

definition rounded_decimal :: "nat \<Rightarrow> rat \<Rightarrow> rat" where
  "rounded_decimal p x = of_int (round_half_even (x * 10 ^ p)) / 10 ^ p"

section \<open>Floating-point data\<close>

text \<open>
  Parameter values, tabulated samples and stored vectors are binary floats.  The model keeps
  the one distinction the update code tests, \<^verbatim>\<open>np.isnan\<close>: a value is \<open>NaN\<close> or a finite
  number, and arithmetic on finite numbers is exact.  Infinities and rounding are outside the
  model.
\<close>

datatype fval = NaN | Val rat

fun isnan :: "fval \<Rightarrow> bool" where
  "isnan NaN = True"
| "isnan (Val x) = False"

fun fadd :: "fval \<Rightarrow> fval \<Rightarrow> fval" where
  "fadd (Val a) (Val b) = Val (a + b)"
| "fadd x y = NaN"

fun fsub :: "fval \<Rightarrow> fval \<Rightarrow> fval" where
  "fsub (Val a) (Val b) = Val (a - b)"
| "fsub x y = NaN"

text \<open>Division by a non-zero finite number; the callers test the divisor first.\<close>

fun fdiv :: "fval \<Rightarrow> rat \<Rightarrow> fval" where
  "fdiv (Val a) d = Val (a / d)"
| "fdiv NaN d = NaN"

section \<open>Tabulated data\<close>

text \<open>
  \<^verbatim>\<open>np.interp(x, xp, fp, left=np.nan, right=np.nan)\<close> on a table of rows \<open>(xp, fp)\<close> with
  non-decreasing \<open>xp\<close>: outside the table the result is NaN, on the last sample it is the
  last value, otherwise the row \<open>j\<close> with \<open>xp[j] \<le> x < xp[j+1]\<close> is interpolated linearly.
  An empty table raises ValueError.
\<close>

fun interp_rows :: "rat \<Rightarrow> (rat \<times> fval) list \<Rightarrow> fval" where
  "interp_rows x [] = NaN"
| "interp_rows x [(x0, y0)] = (if x = x0 then y0 else NaN)"
| "interp_rows x ((x0, y0) # (x1, y1) # rows) =
     (if x < x1 then
        (if x = x0 then y0
         else (case (y0, y1) of
                 (Val a, Val b) \<Rightarrow> Val ((b - a) / (x1 - x0) * (x - x0) + a)
               | _ \<Rightarrow> NaN))
      else interp_rows x ((x1, y1) # rows))"

definition np_interp :: "rat \<Rightarrow> (rat \<times> fval) list \<Rightarrow> error + fval" where
  "np_interp x rows =
     (if rows = [] then Inl ValueError
      else if x < fst (hd rows) then Inr NaN
      else if fst (last rows) < x then Inr NaN
      else Inr (interp_rows x rows))"

section \<open>Field-valued parameters: \<^verbatim>\<open>load_vector\<close>\<close>

text \<open>
  \<^verbatim>\<open>np.isclose(a, b)\<close> with the default tolerances, \<open>|a - b| \<le> atol + rtol * |b|\<close>, in exact
  arithmetic.
\<close>

definition rtol :: rat where "rtol = 1 / 10 ^ 5"
definition atol :: rat where "atol = 1 / 10 ^ 8"

definition isclose :: "rat \<Rightarrow> rat \<Rightarrow> bool" where
  "isclose a b = (\<bar>a - b\<bar> \<le> atol + rtol * \<bar>b\<bar>)"

text \<open>
  \<^verbatim>\<open>np.flatnonzero(mask)\<close>: the indices at which the mask holds, in increasing order.
\<close>

definition flatnonzero :: "(rat \<Rightarrow> bool) \<Rightarrow> rat list \<Rightarrow> nat list" where
  "flatnonzero P xs = filter (\<lambda>i. P (xs ! i)) [0..<length xs]"

text \<open>
  The h5 file is the list of its datasets \<^verbatim>\<open>VisualisationVector/0\<close>, \<^verbatim>\<open>/1\<close>, ...; reading a
  dataset that the file does not hold fails.
\<close>

definition read_vector :: "fval list list \<Rightarrow> nat \<Rightarrow> error + fval list" where
  "read_vector file i = (if i < length file then Inr (file ! i) else Inl RuntimeError)"

text \<open>\<^verbatim>\<open>(vec1 + vec2) / 2\<close> on two dolfin vectors, which must have the same size.\<close>

definition vector_mean :: "fval list \<Rightarrow> fval list \<Rightarrow> error + fval list" where
  "vector_mean v1 v2 =
     (if length v1 \<noteq> length v2 then Inl RuntimeError
      else Inr (map (\<lambda>(a, b). fdiv (fadd a b) 2) (zip v1 v2)))"

definition load_vector :: "fval list list \<Rightarrow> rat list \<Rightarrow> rat \<Rightarrow> error + fval list" where
  "load_vector file tVec t =
     (let has_timestamp = flatnonzero (\<lambda>a. isclose a t) tVec
      in if has_timestamp \<noteq> [] then read_vector file (hd has_timestamp)
         else if tVec = [] then Inl IndexError
         else if last tVec < t then read_vector file (length tVec - 1)
         else if t < hd tVec then read_vector file 0
         else
           (let below = flatnonzero (\<lambda>a. a < t) tVec;
                above = flatnonzero (\<lambda>a. t < a) tVec
            in if below = [] \<or> above = [] then Inl IndexError
               else (case read_vector file (last below) of
                       Inl e \<Rightarrow> Inl e
                     | Inr vec1 \<Rightarrow>
                         (case read_vector file (hd above) of
                            Inl e \<Rightarrow> Inl e
                          | Inr vec2 \<Rightarrow> vector_mean vec1 vec2))))"

section \<open>Time-dependent parameters\<close>

datatype ParameterType = from_xdmf | expression | from_file | constant_p

text \<open>
  A parameter of the container \<^verbatim>\<open>self.pc\<close>.  Symbolic expressions are evaluated by sympy:
  \<open>sym_expr\<close> is \<^verbatim>\<open>sym_expr.subs({"t": x}).evalf()\<close> as a function of \<open>x\<close>,
  \<open>preint_sym_expr\<close> the same for the antiderivative when there is one, and \<open>quad\<close> is the
  first component of \<^verbatim>\<open>integrate.quad(lambdify(tsym, sym_expr), a, b)\<close>.
\<close>

record parameter =
  p_name :: string
  p_type :: ParameterType
  is_time_dependent :: bool
  use_preintegration :: bool
  is_space_dependent :: bool
  sym_expr :: "rat \<Rightarrow> fval"
  preint_sym_expr :: "(rat \<Rightarrow> fval) option"
  quad :: "rat \<Rightarrow> rat \<Rightarrow> fval"
  int_vec :: "fval list"
  sampling_data :: "(rat \<times> fval) list"
  preint_sampling_data :: "(rat \<times> fval) list"
  h5_file :: "fval list list"
  tVec :: "rat list"
  mesh_map :: "nat list"
  dolfin_function :: "fval list"
  dolfin_expression :: "fval option"
  p_value :: fval
  value_vector :: "(rat \<times> fval) list"

text \<open>
  The tail of the loop body of \<^verbatim>\<open>update_time_dependent_parameters\<close>: a new value is
  asserted not to be NaN and stored; a time-dependent parameter that got no value is an
  AssertionError.
\<close>

definition store_new_value :: "rat \<Rightarrow> fval option \<Rightarrow> parameter \<Rightarrow> error + parameter" where
  "store_new_value t new_value q =
     (case new_value of
        Some v \<Rightarrow>
          if isnan v then Inl AssertionError
          else Inr (q\<lparr>value_vector := value_vector q @ [(t, v)], p_value := v\<rparr>)
      | None \<Rightarrow> Inl AssertionError)"

text \<open>The branch \<^verbatim>\<open>if parameter.use_preintegration:\<close> of the loop body.\<close>

definition update_preintegrated ::
  "rat \<Rightarrow> rat \<Rightarrow> rat \<Rightarrow> fval option \<Rightarrow> parameter \<Rightarrow> error + parameter" where
  "update_preintegrated t dt tn new_value q =
     (if p_type q = expression then
        (case (case preint_sym_expr q of
                 None \<Rightarrow>
                   if int_vec q = [] then Inl IndexError
                   else (let a = last (int_vec q); b = fadd a (quad q tn t)
                         in Inr (a, b, q\<lparr>int_vec := int_vec q @ [b]\<rparr>))
               | Some F \<Rightarrow> Inr (F tn, F t, q)) of
           Inl e \<Rightarrow> Inl e
         | Inr (a, b, q') \<Rightarrow>
             if dt = 0 then Inl ZeroDivisionError
             else if is_space_dependent q' then
               Inr (q'\<lparr>dolfin_expression := Some (fdiv (fsub b a) dt)\<rparr>)
             else store_new_value t (Some (fdiv (fsub b a) dt)) q')
      else if p_type q = from_file then
        (case np_interp tn (preint_sampling_data q) of
           Inl e \<Rightarrow> Inl e
         | Inr a \<Rightarrow>
             (case np_interp t (preint_sampling_data q) of
                Inl e \<Rightarrow> Inl e
              | Inr b \<Rightarrow>
                  if dt = 0 then Inl ZeroDivisionError
                  else store_new_value t (Some (fdiv (fsub b a) dt)) q))
      else store_new_value t new_value q)"

text \<open>
  One iteration of the loop of \<^verbatim>\<open>update_time_dependent_parameters\<close>, for the parameter
  \<open>q\<close> at the times \<open>t\<close>, \<open>tn\<close> and the step \<open>dt\<close>.  Dividing by \<open>dt = 0\<close> is reported as
  ZeroDivisionError; \<^verbatim>\<open>monolithic_solve\<close> never gets there, it refuses \<open>dt \<le> 0\<close>.
\<close>

definition update_parameter :: "rat \<Rightarrow> rat \<Rightarrow> rat \<Rightarrow> parameter \<Rightarrow> error + parameter" where
  "update_parameter t dt tn q =
     (if p_type q = from_xdmf then
        (case load_vector (h5_file q) (tVec q) t of
           Inl e \<Rightarrow> Inl e
         | Inr vec_new \<Rightarrow>
             if length vec_new \<noteq> length (mesh_map q) then Inl ValueError
             else if \<exists>i \<in> set (mesh_map q). length vec_new \<le> i then Inl IndexError
             else Inr (q\<lparr>dolfin_function := map (\<lambda>i. vec_new ! i) (mesh_map q)\<rparr>))
      else if \<not> is_time_dependent q then Inr q
      else if \<not> use_preintegration q then
        (if p_type q = expression then
           (let v = sym_expr q t
            in Inr (q\<lparr>p_value := v, value_vector := value_vector q @ [(t, v)]\<rparr>))
         else if p_type q = from_file then
           (if sampling_data q = [] then Inl IndexError
            else if t < fst (hd (sampling_data q)) \<or> fst (last (sampling_data q)) < t then
              Inl Exception
            else (case np_interp t (sampling_data q) of
                    Inl e \<Rightarrow> Inl e
                  | Inr v \<Rightarrow> store_new_value t (Some v) q))
         else store_new_value t None q)
      else update_preintegrated t dt tn None q)"

fun update_parameters :: "rat \<Rightarrow> rat \<Rightarrow> rat \<Rightarrow> parameter list \<Rightarrow> error + parameter list" where
  "update_parameters t dt tn [] = Inr []"
| "update_parameters t dt tn (q # qs) =
     (case update_parameter t dt tn q of
        Inl e \<Rightarrow> Inl e
      | Inr q' \<Rightarrow>
          (case update_parameters t dt tn qs of
             Inl e \<Rightarrow> Inl e
           | Inr qs' \<Rightarrow> Inr (q' # qs')))"

section \<open>The model state\<close>

text \<open>
  The part of \<^verbatim>\<open>Model\<close> that the time stepping reads and writes.  The entries of
  \<^verbatim>\<open>config.solver\<close> are fields of the same record.  \<^verbatim>\<open>time_precision\<close> is asserted to be
  in \<^verbatim>\<open>range(1, 30)\<close> by \<^verbatim>\<open>initialize\<close>, so it is never \<^verbatim>\<open>None\<close>.  The dolfin constants
  \<^verbatim>\<open>T\<close> and \<^verbatim>\<open>dT\<close> mirror \<^verbatim>\<open>t\<close> and \<^verbatim>\<open>dt\<close> and are left out.  \<^verbatim>\<open>u_u\<close> and \<^verbatim>\<open>u_n\<close> are
  \<^verbatim>\<open>self.u["u"]\<close> and \<^verbatim>\<open>self.u["n"]\<close>, one vector per active compartment.  The fields
  \<open>self_t\<close>, \<open>self_dt\<close>, \<open>self_tn\<close> and \<open>self_idx\<close> are \<^verbatim>\<open>self.t\<close>, \<^verbatim>\<open>self.dt\<close>, \<^verbatim>\<open>self.tn\<close> and
  \<^verbatim>\<open>self.idx\<close>; \<open>failed_to_converge\<close> is \<^verbatim>\<open>self._failed_to_converge\<close>.  Stopwatches, logging
  and the PETSc vector \<^verbatim>\<open>_ubackend\<close>, a copy of \<^verbatim>\<open>u["u"]\<close>, are left out.
\<close>

type_synonym failed_solve = "int \<times> nat \<times> nat \<times> rat \<times> rat \<times> int"

text \<open>
  What the code reads from \<^verbatim>\<open>self.solver\<close> after a solve: \<^verbatim>\<open>its\<close>, \<^verbatim>\<open>ksp.its\<close>,
  \<^verbatim>\<open>converged\<close> and \<^verbatim>\<open>getConvergedReason()\<close>.
\<close>

record snes =
  its :: nat
  ksp_its :: nat
  converged :: bool
  converged_reason :: int

record model =
  time_precision :: nat
  adjust_dt :: "(rat \<times> rat) list option"
  use_snes :: bool
  reset_timestep_for_negative_solution :: bool
  attempt_timestep_restart_on_divergence :: bool
  final_t :: rat
  self_t :: rat
  self_dt :: rat
  self_tn :: rat
  tvec :: "rat list"
  dtvec :: "rat list"
  self_idx :: int
  idx_nl :: "nat list"
  idx_l :: "nat list"
  reset_dt :: bool
  failed_to_converge :: bool
  failed_solves :: "failed_solve list"
  u_u :: "rat list list"
  u_n :: "rat list list"
  solver :: snes
  pc :: "parameter list"

section \<open>Step size control\<close>

definition set_time :: "rat \<Rightarrow> model \<Rightarrow> model" where
  "set_time x m = (if x \<noteq> self_t m then m\<lparr>self_t := x\<rparr> else m)"

definition set_dt :: "rat \<Rightarrow> model \<Rightarrow> model" where
  "set_dt x m =
     (let d = rounded_decimal (time_precision m) x;
          d = rounded_decimal (time_precision m) d
      in if d \<noteq> self_dt m then m\<lparr>self_dt := d\<rparr> else m)"

definition adjust_dt_if_prescribed :: "model \<Rightarrow> error + model" where
  "adjust_dt_if_prescribed m =
     (case adjust_dt m of
        None \<Rightarrow> Inr m
      | Some [] \<Rightarrow> Inr m
      | Some ((ta, da) # rest) \<Rightarrow>
          let p = time_precision m;
              tnow = rounded_decimal p (self_t m);
              dtnow = rounded_decimal p (self_dt m);
              tnext = rounded_decimal p (tnow + dtnow);
              tadjust = rounded_decimal p ta;
              dtadjust = rounded_decimal p da
          in if reset_dt m \<or> tadjust = tnow then
               Inr ((set_dt dtadjust m)\<lparr>adjust_dt := Some rest, reset_dt := False\<rparr>)
             else if tadjust < tnow then Inl AssertionError
             else if tnow < tadjust \<and> tadjust \<le> tnext then
               (let new_dt = rounded_decimal p (max (tadjust - tnow) dtadjust)
                in if tadjust - tnow < dtadjust then
                     Inr ((set_dt new_dt m)\<lparr>adjust_dt := Some rest, reset_dt := False\<rparr>)
                   else Inr ((set_dt new_dt m)\<lparr>reset_dt := True\<rparr>))
             else Inr m)"

definition adjust_dt_if_pass_tfinal :: "model \<Rightarrow> model" where
  "adjust_dt_if_pass_tfinal m =
     (let tnext = self_t m + self_dt m
      in if final_t m < tnext then
           (let new_dt = final_t m - self_t m;
                new_dt = rounded_decimal (time_precision m) new_dt
            in set_dt new_dt m)
         else m)"

definition forward_time_step :: "model \<Rightarrow> model" where
  "forward_time_step m =
     (let p = time_precision m;
          d = rounded_decimal p (self_dt m);
          d = rounded_decimal p d;
          tn' = rounded_decimal p (self_t m);
          t' = rounded_decimal p (self_t m + d)
      in m\<lparr>self_dt := d, self_tn := tn', self_t := t',
            tvec := tvec m @ [t'], dtvec := dtvec m @ [d]\<rparr>)"

text \<open>
  The clock part of \<^verbatim>\<open>initialize\<close>: \<open>initial_dt\<close> and \<open>final\<close> are the entries
  \<^verbatim>\<open>initial_dt\<close> and \<^verbatim>\<open>final_t\<close> of \<^verbatim>\<open>config.solver\<close>.
\<close>

definition initialize :: "rat \<Rightarrow> rat \<Rightarrow> model \<Rightarrow> model" where
  "initialize initial_dt final m =
     (let p = time_precision m;
          t0 = rounded_decimal p 0;
          dt0 = rounded_decimal p initial_dt
      in m\<lparr>self_t := t0, self_dt := dt0, final_t := rounded_decimal p final,
            tvec := [t0], dtvec := [dt0]\<rparr>)"

section \<open>Solution state and rollback\<close>

datatype ukey = U | N

definition get_u :: "ukey \<Rightarrow> model \<Rightarrow> rat list list" where
  "get_u k m = (case k of U \<Rightarrow> u_u m | N \<Rightarrow> u_n m)"

definition assign_u :: "ukey \<Rightarrow> rat list list \<Rightarrow> model \<Rightarrow> model" where
  "assign_u k v m = (case k of U \<Rightarrow> m\<lparr>u_u := v\<rparr> | N \<Rightarrow> m\<lparr>u_n := v\<rparr>)"

text \<open>
  \<^verbatim>\<open>update_solution(ukeys, unew)\<close> assigns \<^verbatim>\<open>u[unew]\<close> to every \<^verbatim>\<open>u[ukey]\<close>, compartment by
  compartment; both keys exist, so the ValueError of the source cannot occur.
\<close>

fun update_solution :: "ukey list \<Rightarrow> ukey \<Rightarrow> model \<Rightarrow> model" where
  "update_solution [] unew m = m"
| "update_solution (k # ks) unew m = update_solution ks unew (assign_u k (get_u unew m) m)"

text \<open>
  \<^verbatim>\<open>reset_timestep(dt_scale)\<close>.  \<^verbatim>\<open>float(self.dtvec[-1]) * dt_scale\<close> is a product of binary
  floats that \<^verbatim>\<open>set_dt\<close> quantises at once; it is modelled by the exact product.  For the
  default \<open>dt_scale = 0.2\<close> the exact product of a quantised \<open>dt\<close> is never at a rounding
  tie, so both give the same quantised value as long as \<open>dt\<close> is below \<open>10 ^ 14\<close> ticks.
\<close>

definition reset_timestep :: "rat \<Rightarrow> model \<Rightarrow> error + model" where
  "reset_timestep dt_scale m =
     (if length (tvec m) < 2 then Inl IndexError
      else
        (let m = set_time (tvec m ! (length (tvec m) - 2)) m
         in if dtvec m = [] then Inl IndexError
            else
              (let m = set_dt (last (dtvec m) * dt_scale) m
               in if idx_nl m = [] \<or> idx_l m = [] then Inl IndexError
                  else
                    (let m = m\<lparr>failed_solves := failed_solves m @
                                 [(self_idx m, last (idx_nl m), last (idx_l m), last (tvec m),
                                   last (dtvec m), converged_reason (solver m))]\<rparr>;
                         m = m\<lparr>self_idx := self_idx m - 1\<rparr>;
                         m = m\<lparr>idx_nl := butlast (idx_nl m), idx_l := butlast (idx_l m),
                               tvec := butlast (tvec m), dtvec := butlast (dtvec m)\<rparr>
                     in Inr (update_solution [U] N m)))))"

section \<open>One time step: \<^verbatim>\<open>monolithic_solve\<close>\<close>

definition update_time_dependent_parameters :: "model \<Rightarrow> error + model" where
  "update_time_dependent_parameters m =
     (case update_parameters (self_t m) (self_dt m) (self_tn m) (pc m) of
        Inl e \<Rightarrow> Inl e
      | Inr qs \<Rightarrow> Inr (m\<lparr>pc := qs\<rparr>))"

text \<open>The double \<^verbatim>\<open>-1e-6\<close> of the negativity test, as the rational it denotes.\<close>

definition neg_tol :: rat where
  "neg_tol = - (4722366482869645 / 4722366482869645213696)"

definition negVals :: "rat list list \<Rightarrow> bool" where
  "negVals u = list_ex (\<lambda>curVec. list_ex (\<lambda>x. x < neg_tol) curVec) u"

definition clamp_negative :: "rat list list \<Rightarrow> rat list list" where
  "clamp_negative u = map (map (\<lambda>x. if x < 0 then 0 else x)) u"

text \<open>
  The nonlinear solver is outside the code: \<open>S m\<close> is the state of \<^verbatim>\<open>self.solver\<close> and the
  new \<^verbatim>\<open>u["u"]\<close> after \<^verbatim>\<open>self.solver.solve\<close> on the state \<open>m\<close>.
\<close>

type_synonym solve_fn = "model \<Rightarrow> snes \<times> rat list list"

text \<open>
  \<^verbatim>\<open>monolithic_solve\<close> calls itself after a failed step.  One pass through its body ends in
  an exception, in an accepted step, or in the state handed to the recursive call.
\<close>

datatype outcome = Fatal error | Accepted model | Retry model

text \<open>Lines 1593-1603: the step counter, the step size adjustments, the test of \<open>dt\<close>.\<close>

definition prelude :: "model \<Rightarrow> error + model" where
  "prelude m =
     (let m = m\<lparr>self_idx := self_idx m + 1\<rparr>
      in case (if \<not> failed_to_converge m then
                 (case adjust_dt_if_prescribed m of
                    Inl e \<Rightarrow> Inl e
                  | Inr m' \<Rightarrow> Inr (adjust_dt_if_pass_tfinal m'))
               else Inr m) of
           Inl e \<Rightarrow> Inl e
         | Inr m' \<Rightarrow> if self_dt m' \<le> 0 then Inl ValueError else Inr m')"

text \<open>
  The block that both failure branches share: \<^verbatim>\<open>reset_timestep()\<close>, then
  \<^verbatim>\<open>_failed_to_converge = True\<close> and the recursive call.
\<close>

definition fail_and_retry :: "model \<Rightarrow> outcome" where
  "fail_and_retry m =
     (case reset_timestep (1 / 5) m of
        Inl e \<Rightarrow> Fatal e
      | Inr m' \<Rightarrow> Retry (m'\<lparr>failed_to_converge := True\<rparr>))"

text \<open>Lines 1684-1753 and 1786: the negativity test, the convergence test, acceptance.\<close>

definition check_solution :: "model \<Rightarrow> outcome" where
  "check_solution m =
     (if reset_timestep_for_negative_solution m \<and> negVals (u_u m) then fail_and_retry m
      else
        (let m = (if reset_timestep_for_negative_solution m
                  then m\<lparr>u_u := clamp_negative (u_u m)\<rparr> else m)
         in if \<not> converged (solver m) then
              (if \<not> attempt_timestep_restart_on_divergence m then Fatal RuntimeError
               else fail_and_retry m)
            else Accepted (update_solution [N] U (m\<lparr>failed_to_converge := False\<rparr>))))"

text \<open>
  One pass through the body of \<^verbatim>\<open>monolithic_solve\<close>.  On the SNES path the iteration counts
  are recorded before the tests; the other path (\<^verbatim>\<open>MixedNonlinearVariationalSolver\<close>) only
  logs residuals and accepts the step.
\<close>

definition attempt :: "solve_fn \<Rightarrow> model \<Rightarrow> outcome" where
  "attempt S m =
     (case prelude m of
        Inl e \<Rightarrow> Fatal e
      | Inr m \<Rightarrow>
          (let m = forward_time_step m
           in case update_time_dependent_parameters m of
                Inl e \<Rightarrow> Fatal e
              | Inr m \<Rightarrow>
                  (let (s, u') = S m;
                       m = m\<lparr>solver := s, u_u := u'\<rparr>
                   in if use_snes m then
                        check_solution
                          (m\<lparr>idx_nl := idx_nl m @ [its s], idx_l := idx_l m @ [ksp_its s]\<rparr>)
                      else Accepted (update_solution [N] U m))))"

function monolithic_solve :: "solve_fn \<Rightarrow> model \<Rightarrow> error + model" where
  "monolithic_solve S m =
     (case attempt S m of
        Fatal e \<Rightarrow> Inl e
      | Accepted m' \<Rightarrow> Inr m'
      | Retry m' \<Rightarrow> monolithic_solve S m')"
  by pat_completeness auto

text \<open>
  The caller's loop: \<open>k\<close> calls of \<^verbatim>\<open>monolithic_solve\<close> in a row, stopping at the first
  exception.
\<close>

fun steps :: "solve_fn \<Rightarrow> nat \<Rightarrow> model \<Rightarrow> error + model" where
  "steps S 0 m = Inr m"
| "steps S (Suc k) m =
     (case steps S k m of
        Inl e \<Rightarrow> Inl e
      | Inr m' \<Rightarrow> monolithic_solve S m')"

section \<open>Active compartments\<close>

record compartment =
  c_name :: string
  num_species :: nat
  dof_index :: "nat option"

text \<open>
  Python's \<^verbatim>\<open>del xs[k]\<close>: a negative index counts from the end, an index out of range
  raises IndexError.
\<close>

definition del_at :: "int \<Rightarrow> 'a list \<Rightarrow> error + 'a list" where
  "del_at k xs =
     (let n = int (length xs); j = (if k < 0 then n + k else k)
      in if 0 \<le> j \<and> j < n then Inr (take (nat j) xs @ drop (Suc (nat j)) xs)
         else Inl IndexError)"

text \<open>The first loop of \<^verbatim>\<open>_init_4_1_get_active_compartments\<close>, from the counter \<open>it_idx\<close> on.\<close>

fun collect_rm_idx :: "int \<Rightarrow> compartment list \<Rightarrow> int list" where
  "collect_rm_idx it_idx [] = []"
| "collect_rm_idx it_idx (c # cs) =
     (if num_species c < 1 then it_idx # collect_rm_idx (it_idx + 1) cs
      else collect_rm_idx (it_idx + 1) cs)"

text \<open>
  The second loop, from the index \<open>i\<close> on: delete the entry \<open>rm_idx[i]\<close>, then lower every
  index in \<open>rm_idx\<close> by one.
\<close>

function remove_loop :: "nat \<Rightarrow> int list \<Rightarrow> compartment list \<Rightarrow> error + compartment list" where
  "remove_loop i rm_idx act =
     (if i < length rm_idx then
        (case del_at (rm_idx ! i) act of
           Inl e \<Rightarrow> Inl e
         | Inr act' \<Rightarrow> remove_loop (Suc i) (map (\<lambda>x. x - 1) rm_idx) act')
      else Inr act)"
  by pat_completeness auto
termination
  by (relation "measure (\<lambda>(i, rm_idx, act). length rm_idx - i)") auto

text \<open>The third loop: \<^verbatim>\<open>compartment.dof_index = idx\<close> along \<^verbatim>\<open>enumerate\<close>.\<close>

definition assign_dof_index :: "compartment list \<Rightarrow> compartment list" where
  "assign_dof_index act = map (\<lambda>(i, c). c\<lparr>dof_index := Some i\<rparr>) (enumerate 0 act)"

text \<open>
  \<^verbatim>\<open>_init_4_1_get_active_compartments\<close> on the compartments \<^verbatim>\<open>self.cc.Dict.values()\<close>, in
  declaration order; the result is \<^verbatim>\<open>self._active_compartments\<close>.
\<close>

definition init_4_1_get_active_compartments :: "compartment list \<Rightarrow> error + compartment list" where
  "init_4_1_get_active_compartments cc =
     (case remove_loop 0 (collect_rm_idx 0 cc) cc of
        Inl e \<Rightarrow> Inl e
      | Inr act \<Rightarrow> Inr (assign_dof_index act))"

section \<open>Residual blocks\<close>












section \<open>Example states\<close>

definition example_model :: model where
  "example_model =
     \<lparr>time_precision = 6, adjust_dt = None, use_snes = True,
      reset_timestep_for_negative_solution = True,
      attempt_timestep_restart_on_divergence = True,
      final_t = 1, self_t = 0, self_dt = 1 / 10, self_tn = 0,
      tvec = [0], dtvec = [1 / 10], self_idx = 0, idx_nl = [], idx_l = [],
      reset_dt = False, failed_to_converge = False, failed_solves = [],
      u_u = [[1]], u_n = [[1]],
      solver = \<lparr>its = 0, ksp_its = 0, converged = True, converged_reason = 0\<rparr>,
      pc = []\<rparr>"


text \<open>
  A scalar parameter given by the expression \<^verbatim>\<open>(t**2 - 1)/(t - 1)\<close>, evaluated directly:
  sympy substitutes without cancelling, so at \<open>t = 1\<close> the value is \<open>0/0\<close>, that is NaN.
\<close>

definition example_parameter :: parameter where
  "example_parameter =
     \<lparr>p_name = ''k'', p_type = expression, is_time_dependent = True,
      use_preintegration = False, is_space_dependent = False,
      sym_expr = (\<lambda>x. if x = 1 then NaN else Val ((x * x - 1) / (x - 1))),
      preint_sym_expr = None, quad = (\<lambda>a b. NaN), int_vec = [],
      sampling_data = [], preint_sampling_data = [], h5_file = [], tVec = [],
      mesh_map = [], dolfin_function = [], dolfin_expression = None,
      p_value = Val 0, value_vector = []\<rparr>"

text \<open>
  A solver for the examples: it converges, and its solution has one component, which is
  \<open>-1e-3\<close> for a step larger than \<open>0.05\<close> and \<open>-1e-8\<close> otherwise.
\<close>

definition example_solver :: solve_fn where
  "example_solver m =
     (\<lparr>its = 2, ksp_its = 5, converged = True, converged_reason = 3\<rparr>,
      [[if 1 / 20 < self_dt m then - (1 / 10 ^ 3) else - (1 / 10 ^ 8)]])"

section \<open>The clock invariant\<close>

text \<open>
  What holds of the clock between two calls of \<^verbatim>\<open>monolithic_solve\<close>: \<open>t\<close> and \<open>dt\<close> are
  quantised, \<open>t\<close> is the last entry of the history \<^verbatim>\<open>tvec\<close>, which increases strictly, and
  \<open>t\<close> is the first entry of \<^verbatim>\<open>tvec\<close> plus the step sizes recorded in \<^verbatim>\<open>dtvec\<close> after its
  first entry (the first entry of \<^verbatim>\<open>dtvec\<close> is the initial \<open>dt\<close>, not a step), all positive.
\<close>

definition clock_inv :: "model \<Rightarrow> bool" where
  "clock_inv m \<longleftrightarrow>
     rounded_decimal (time_precision m) (self_dt m) = self_dt m \<and>
     rounded_decimal (time_precision m) (self_t m) = self_t m \<and>
     tvec m \<noteq> [] \<and> last (tvec m) = self_t m \<and>
     length (dtvec m) = length (tvec m) \<and>
     self_t m = hd (tvec m) + sum_list (tl (dtvec m)) \<and>
     (\<forall>d \<in> set (tl (dtvec m)). 0 < d) \<and>
     sorted_wrt (<) (tvec m)"

section \<open>Facts about quantisation\<close>

lemma round_half_even_of_int: "round_half_even (of_int k) = k"
  by (simp add: round_half_even_def)

lemma rounded_decimal_ticks: "rounded_decimal p (of_int k / 10 ^ p) = of_int k / 10 ^ p"
  by (simp add: rounded_decimal_def round_half_even_of_int)

lemma rounded_decimal_idem: "rounded_decimal p (rounded_decimal p x) = rounded_decimal p x"
  unfolding rounded_decimal_def [of p x] by (rule rounded_decimal_ticks)


lemma rounded_decimal_exact: "x * 10 ^ p \<in> \<int> \<Longrightarrow> rounded_decimal p x = x"
proof -
  assume "x * 10 ^ p \<in> \<int>"
  then obtain z where z: "x * 10 ^ p = of_int z" by (auto elim: Ints_cases)
  then have x: "x = of_int z / 10 ^ p" by (simp add: field_simps)
  show ?thesis unfolding x by (rule rounded_decimal_ticks)
qed


lemma set_dt_eq: "set_dt x m = m\<lparr>self_dt := rounded_decimal (time_precision m) x\<rparr>"
  by (simp add: set_dt_def Let_def rounded_decimal_idem)


lemma rounded_decimal_add:
  "rounded_decimal p (rounded_decimal p x + rounded_decimal p y) = rounded_decimal p x + rounded_decimal p y"
  by (rule rounded_decimal_exact) (simp add: rounded_decimal_def algebra_simps)


section \<open>Final-time clipping\<close>



section \<open>Prescribed checkpoints\<close>



section \<open>Facts about the step functions\<close>

lemma round_half_even_upper: "of_int (round_half_even x) \<le> x + 1 / 2"
  unfolding round_half_even_def Let_def by (auto; linarith)

lemma round_half_even_lower: "x - 1 / 2 \<le> of_int (round_half_even x)"
  unfolding round_half_even_def Let_def by (auto; linarith)

lemma round_half_even_fifth_less:
  assumes "0 < round_half_even (of_int k / 5)"
  shows "round_half_even (of_int k / 5) < k"
proof -
  let ?r = "round_half_even (of_int k / 5)"
  have u: "(of_int ?r :: rat) \<le> of_int k / 5 + 1 / 2" by (rule round_half_even_upper)
  have "(1 :: rat) \<le> of_int ?r" using assms by linarith
  with u have "(of_int ?r :: rat) < of_int k" by linarith
  then show ?thesis by simp
qed

lemma set_time_eq: "set_time x m = m\<lparr>self_t := x\<rparr>"
  by (simp add: set_time_def)

lemma update_solution_N_U: "update_solution [N] U m = m\<lparr>u_n := u_u m\<rparr>"
  by (simp add: assign_u_def get_u_def)

lemma update_solution_U_N: "update_solution [U] N m = m\<lparr>u_u := u_n m\<rparr>"
  by (simp add: assign_u_def get_u_def)

lemma adjust_dt_if_prescribed_frame:
  assumes "adjust_dt_if_prescribed m = Inr m'"
  shows "time_precision m' = time_precision m" "self_t m' = self_t m" "tvec m' = tvec m"
    "dtvec m' = dtvec m" "u_u m' = u_u m" "u_n m' = u_n m" "idx_nl m' = idx_nl m"
    "idx_l m' = idx_l m" "self_idx m' = self_idx m" "failed_to_converge m' = failed_to_converge m"
    "final_t m' = final_t m" "pc m' = pc m" "use_snes m' = use_snes m"
    "self_dt m' = self_dt m \<or> (\<exists>x. self_dt m' = rounded_decimal (time_precision m) x)"
  using assms
  by (auto simp: adjust_dt_if_prescribed_def Let_def set_dt_eq
      split: option.splits list.splits if_splits prod.splits)

lemma adjust_dt_if_pass_tfinal_eq:
  "adjust_dt_if_pass_tfinal m =
     (if final_t m < self_t m + self_dt m
      then m\<lparr>self_dt := rounded_decimal (time_precision m) (final_t m - self_t m)\<rparr> else m)"
  by (simp add: adjust_dt_if_pass_tfinal_def Let_def set_dt_eq rounded_decimal_idem)

lemma forward_time_step_eq:
  "forward_time_step m =
     m\<lparr>self_dt := rounded_decimal (time_precision m) (self_dt m),
       self_tn := rounded_decimal (time_precision m) (self_t m),
       self_t := rounded_decimal (time_precision m)
                   (self_t m + rounded_decimal (time_precision m) (self_dt m)),
       tvec := tvec m @ [rounded_decimal (time_precision m)
                   (self_t m + rounded_decimal (time_precision m) (self_dt m))],
       dtvec := dtvec m @ [rounded_decimal (time_precision m) (self_dt m)]\<rparr>"
  by (simp add: forward_time_step_def Let_def rounded_decimal_idem)

lemma reset_timestep_eq:
  "reset_timestep sc m =
     (if length (tvec m) < 2 \<or> dtvec m = [] \<or> idx_nl m = [] \<or> idx_l m = [] then Inl IndexError
      else Inr (m\<lparr>self_t := tvec m ! (length (tvec m) - 2),
                  self_dt := rounded_decimal (time_precision m) (last (dtvec m) * sc),
                  failed_solves := failed_solves m @
                     [(self_idx m, last (idx_nl m), last (idx_l m), last (tvec m),
                       last (dtvec m), converged_reason (solver m))],
                  self_idx := self_idx m - 1,
                  idx_nl := butlast (idx_nl m), idx_l := butlast (idx_l m),
                  tvec := butlast (tvec m), dtvec := butlast (dtvec m),
                  u_u := u_n m\<rparr>))"
  by (simp add: reset_timestep_def Let_def set_time_eq set_dt_eq assign_u_def get_u_def)

lemma update_time_dependent_parameters_Inr:
  "update_time_dependent_parameters m = Inr m' \<Longrightarrow> \<exists>qs. m' = m\<lparr>pc := qs\<rparr>"
  by (auto simp: update_time_dependent_parameters_def split: sum.splits)

lemma prelude_failed:
  "failed_to_converge m \<Longrightarrow>
     prelude m = (if self_dt m \<le> 0 then Inl ValueError else Inr (m\<lparr>self_idx := self_idx m + 1\<rparr>))"
  by (simp add: prelude_def Let_def)

lemma prelude_Inr:
  assumes "prelude m = Inr m2"
  shows "0 < self_dt m2" "time_precision m2 = time_precision m" "self_t m2 = self_t m"
    "tvec m2 = tvec m" "dtvec m2 = dtvec m" "u_u m2 = u_u m" "u_n m2 = u_n m"
    "idx_nl m2 = idx_nl m" "idx_l m2 = idx_l m" "self_idx m2 = self_idx m + 1"
    "use_snes m2 = use_snes m"
    "self_dt m2 = self_dt m \<or> (\<exists>x. self_dt m2 = rounded_decimal (time_precision m) x)"
proof -
  let ?m = "m\<lparr>self_idx := self_idx m + 1\<rparr>"
  show "0 < self_dt m2"
    using assms by (auto simp: prelude_def Let_def split: sum.splits if_splits)
  consider (failed) "failed_to_converge m" "m2 = ?m"
    | (adj) m1 where "adjust_dt_if_prescribed ?m = Inr m1" "m2 = adjust_dt_if_pass_tfinal m1"
    using assms by (auto simp: prelude_def Let_def split: sum.splits if_splits)
  then have "time_precision m2 = time_precision m \<and> self_t m2 = self_t m \<and>
    tvec m2 = tvec m \<and> dtvec m2 = dtvec m \<and> u_u m2 = u_u m \<and> u_n m2 = u_n m \<and>
    idx_nl m2 = idx_nl m \<and> idx_l m2 = idx_l m \<and> self_idx m2 = self_idx m + 1 \<and>
    use_snes m2 = use_snes m \<and>
    (self_dt m2 = self_dt m \<or> (\<exists>x. self_dt m2 = rounded_decimal (time_precision m) x))"
  proof cases
    case failed
    then show ?thesis by simp
  next
    case adj
    from adjust_dt_if_prescribed_frame [OF adj(1)] adj(2) show ?thesis
      by (auto simp: adjust_dt_if_pass_tfinal_eq)
  qed
  then show "time_precision m2 = time_precision m" "self_t m2 = self_t m"
    "tvec m2 = tvec m" "dtvec m2 = dtvec m" "u_u m2 = u_u m" "u_n m2 = u_n m"
    "idx_nl m2 = idx_nl m" "idx_l m2 = idx_l m" "self_idx m2 = self_idx m + 1"
    "use_snes m2 = use_snes m"
    "self_dt m2 = self_dt m \<or> (\<exists>x. self_dt m2 = rounded_decimal (time_precision m) x)"
    by blast+
qed

lemma nth_before_appended: "xs \<noteq> [] \<Longrightarrow> (xs @ [y]) ! (length xs - Suc 0) = last xs"
  by (simp add: nth_append last_conv_nth)

lemma attempt_Retry:
  assumes "attempt S m = Retry m'"
  shows "\<exists>m2. prelude m = Inr m2 \<and> failed_to_converge m' \<and>
     time_precision m' = time_precision m \<and>
     self_dt m' = rounded_decimal (time_precision m)
                    (rounded_decimal (time_precision m) (self_dt m2) * (1 / 5)) \<and>
     tvec m \<noteq> [] \<and> self_t m' = last (tvec m) \<and> tvec m' = tvec m \<and> dtvec m' = dtvec m \<and>
     u_u m' = u_n m \<and> u_n m' = u_n m"
proof -
  from assms obtain m2 where p: "prelude m = Inr m2"
    by (auto simp: attempt_def split: sum.splits)
  note f = prelude_Inr [OF p]
  from assms p obtain m3 where u: "update_time_dependent_parameters (forward_time_step m2) = Inr m3"
    by (auto simp: attempt_def Let_def split: sum.splits)
  then obtain qs where m3: "m3 = (forward_time_step m2)\<lparr>pc := qs\<rparr>"
    by (blast dest: update_time_dependent_parameters_Inr)
  obtain s u' where S: "S m3 = (s, u')" by (cases "S m3")
  define m4 where "m4 = m3\<lparr>solver := s, u_u := u', idx_nl := idx_nl m3 @ [its s],
                          idx_l := idx_l m3 @ [ksp_its s]\<rparr>"
  from assms p u S have c: "check_solution m4 = Retry m'"
    by (auto simp: attempt_def Let_def m4_def split: if_splits)
  have m4: "time_precision m4 = time_precision m" "tvec m4 = tvec m @ [self_t m4]"
    "dtvec m4 = dtvec m @ [rounded_decimal (time_precision m) (self_dt m2)]" "u_n m4 = u_n m"
    by (simp_all add: m4_def m3 forward_time_step_eq f)
  from c show ?thesis
    apply (intro exI [of _ m2])
    apply (simp add: p)
    apply (auto simp: check_solution_def fail_and_retry_def reset_timestep_eq Let_def m4 nth_before_appended
        split: if_splits sum.splits)
    done
qed

text \<open>
  The recursion of \<^verbatim>\<open>monolithic_solve\<close> ends: a retry runs with a fifth of the step size,
  quantised, and a step size that has reached zero is refused with ValueError.
\<close>

lemma retry_measure:
  assumes "attempt S m = Retry m'"
  shows "(case prelude m' of Inl e \<Rightarrow> 0
          | Inr m2 \<Rightarrow> Suc (nat (round_half_even (self_dt m2 * 10 ^ time_precision m2))))
       < (case prelude m of Inl e \<Rightarrow> 0
          | Inr m2 \<Rightarrow> Suc (nat (round_half_even (self_dt m2 * 10 ^ time_precision m2))))"
proof -
  from attempt_Retry [OF assms] obtain m2 where m2: "prelude m = Inr m2"
    and f: "failed_to_converge m'" and p': "time_precision m' = time_precision m"
    and d: "self_dt m' = rounded_decimal (time_precision m)
                    (rounded_decimal (time_precision m) (self_dt m2) * (1 / 5))"
    by blast
  define p where "p = time_precision m"
  define k where "k = round_half_even (self_dt m2 * 10 ^ p)"
  define k' where "k' = round_half_even (of_int k / 5)"
  have p2: "time_precision m2 = p" using prelude_Inr(2) [OF m2] by (simp add: p_def)
  have "rounded_decimal p (self_dt m2) * (1 / 5) * 10 ^ p = of_int k / 5"
    by (simp add: rounded_decimal_def k_def)
  then have dk: "self_dt m' = of_int k' / 10 ^ p"
    unfolding d p_def [symmetric] k'_def by (simp add: rounded_decimal_def)
  have pos: "(0 :: rat) < 10 ^ p" by simp
  show ?thesis
  proof (cases "self_dt m' \<le> 0")
    case True
    then show ?thesis using f m2 by (simp add: prelude_failed)
  next
    case False
    then have "0 < (of_int k' :: rat) / 10 ^ p" by (simp add: dk)
    then have "0 < (of_int k' :: rat)" using pos by (simp add: zero_less_divide_iff)
    then have k'pos: "0 < k'" by simp
    then have "k' < k" unfolding k'_def by (rule round_half_even_fifth_less)
    moreover have "round_half_even (self_dt m' * 10 ^ p) = k'"
      by (simp add: dk round_half_even_of_int)
    ultimately show ?thesis
      using False f m2 k'pos by (simp add: prelude_failed p' p2 p_def [symmetric] k_def [symmetric])
  qed
qed

termination monolithic_solve
proof (relation "measure (\<lambda>(S, m). case prelude m of Inl e \<Rightarrow> 0
          | Inr m2 \<Rightarrow> Suc (nat (round_half_even (self_dt m2 * 10 ^ time_precision m2))))")
  show "wf (measure (\<lambda>(S, m). case prelude m of Inl e \<Rightarrow> 0
          | Inr m2 \<Rightarrow> Suc (nat (round_half_even (self_dt m2 * 10 ^ time_precision m2)))))"
    by simp
next
  fix S :: solve_fn and m m' :: model
  assume "attempt S m = Retry m'"
  then show "((S, m'), (S, m)) \<in> measure (\<lambda>(S, m). case prelude m of Inl e \<Rightarrow> 0
          | Inr m2 \<Rightarrow> Suc (nat (round_half_even (self_dt m2 * 10 ^ time_precision m2))))"
    using retry_measure by simp
qed

section \<open>Facts about the active compartments\<close>

lemma collect_rm_idx_shift:
  "map (\<lambda>x. x - 1) (collect_rm_idx (k + 1) cs) = collect_rm_idx k cs"
proof (induction cs arbitrary: k)
  case Nil
  show ?case by simp
next
  case (Cons c cs)
  have "k + 1 + 1 = (k + 1) + 1" by simp
  from Cons [of "k + 1"] show ?case by (simp add: add.commute)
qed

lemma del_at_middle: "del_at (int (length pre)) (pre @ c # cs) = Inr (pre @ cs)"
  by (simp add: del_at_def Let_def)

lemma remove_loop_filter:
  "drop i rm_idx = collect_rm_idx (int (length pre)) cs \<Longrightarrow>
     remove_loop i rm_idx (pre @ cs) = Inr (pre @ filter (\<lambda>c. \<not> num_species c < 1) cs)"
proof (induction cs arbitrary: pre i rm_idx)
  case Nil
  then have "\<not> i < length rm_idx" by simp
  then show ?case by (subst remove_loop.simps) simp
next
  case (Cons c cs)
  show ?case
  proof (cases "num_species c < 1")
    case False
    with Cons.prems have "drop i rm_idx = collect_rm_idx (int (length (pre @ [c]))) cs"
      by (simp add: add.commute)
    from Cons.IH [OF this] False show ?thesis by simp
  next
    case True
    with Cons.prems have d: "drop i rm_idx = int (length pre) # collect_rm_idx (int (length pre) + 1) cs"
      by simp
    then have i: "i < length rm_idx" by (cases "i < length rm_idx") auto
    from d i have at: "rm_idx ! i = int (length pre)"
      by (metis Cons_nth_drop_Suc list.inject)
    from d i have "drop (Suc i) rm_idx = collect_rm_idx (int (length pre) + 1) cs"
      by (metis Cons_nth_drop_Suc list.inject)
    then have "drop (Suc i) (map (\<lambda>x. x - 1) rm_idx) = collect_rm_idx (int (length pre)) cs"
      by (simp add: drop_map collect_rm_idx_shift)
    from Cons.IH [OF this] have
      "remove_loop (Suc i) (map (\<lambda>x. x - 1) rm_idx) (pre @ cs)
         = Inr (pre @ filter (\<lambda>c. \<not> num_species c < 1) cs)" .
    with i at True show ?thesis
      by (subst remove_loop.simps) (simp add: del_at_middle)
  qed
qed

lemma init_4_1_get_active_compartments_eq:
  "init_4_1_get_active_compartments cc =
     Inr (assign_dof_index (filter (\<lambda>c. \<not> num_species c < 1) cc))"
  using remove_loop_filter [of 0 "collect_rm_idx 0 cc" "[]" cc]
  by (simp add: init_4_1_get_active_compartments_def)

text \<open>
  C3.  The claim: activation drops the compartments without unknowns and numbers the others
  \<open>0..n-1\<close> in descending order of their unknown count.  The code drops and numbers, but
  it never sorts: the active compartments keep their declaration order.  Here \<open>B\<close>, with two
  species, is declared after \<open>A\<close>, with one, and gets index 1, not 0.
\<close>

theorem active_compartments_declaration_order:
  "init_4_1_get_active_compartments
     [\<lparr>c_name = ''A'', num_species = 1, dof_index = None\<rparr>,
      \<lparr>c_name = ''Z'', num_species = 0, dof_index = None\<rparr>,
      \<lparr>c_name = ''B'', num_species = 2, dof_index = None\<rparr>]
   = Inr [\<lparr>c_name = ''A'', num_species = 1, dof_index = Some 0\<rparr>,
          \<lparr>c_name = ''B'', num_species = 2, dof_index = Some 1\<rparr>]"
  by (simp add: init_4_1_get_active_compartments_eq assign_dof_index_def)

text \<open>
  C9.  The claim: when every compartment has zero unknowns, activation fails with a
  configuration error.  The code raises nothing: with one compartment without species it
  returns the empty list.
\<close>

theorem no_active_compartments_counterexample:
  "init_4_1_get_active_compartments [\<lparr>c_name = ''A'', num_species = 0, dof_index = None\<rparr>]
   = Inr []"
  by (simp add: init_4_1_get_active_compartments_eq assign_dof_index_def)

text \<open>
  C9, amended.  When every compartment has zero unknowns,
  \<^verbatim>\<open>_init_4_1_get_active_compartments\<close> returns normally and the list of active compartments
  is empty.
\<close>

theorem no_active_compartments:
  "\<forall>c \<in> set cc. num_species c < 1 \<Longrightarrow> init_4_1_get_active_compartments cc = Inr []"
  by (simp add: init_4_1_get_active_compartments_eq assign_dof_index_def)

theorem no_active_compartments_witness:
  "init_4_1_get_active_compartments
     [\<lparr>c_name = ''A'', num_species = 0, dof_index = None\<rparr>,
      \<lparr>c_name = ''B'', num_species = 0, dof_index = Some 3\<rparr>] = Inr []"
  using no_active_compartments
    [of "[\<lparr>c_name = ''A'', num_species = 0, dof_index = None\<rparr>,
          \<lparr>c_name = ''B'', num_species = 0, dof_index = Some 3\<rparr>]"]
  by simp

section \<open>Residual blocks with an empty part\<close>


section \<open>NaN in a parameter update\<close>

lemma store_new_value_not_nan:
  "store_new_value t v q = Inr q' \<Longrightarrow> \<not> isnan (p_value q')"
  by (auto simp: store_new_value_def split: option.splits if_splits)

text \<open>
  C5.  The claim: every value computed by the parameter update is asserted not to be NaN
  before it is stored, on every path.  The tabulated and the pre-integrated scalar paths
  end in that assertion.  The direct expression path stores the value and goes on to the
  next parameter before the assertion: at \<open>t = 1\<close> the example parameter gets the value NaN
  and the update returns normally.
\<close>

theorem direct_expression_stores_nan:
  "map_sum id (map p_value) (update_parameters 1 (1 / 10) (9 / 10) [example_parameter])
     = Inr [NaN] \<and>
   map_sum id (map value_vector) (update_parameters 1 (1 / 10) (9 / 10) [example_parameter])
     = Inr [[(1, NaN)]] \<and>
   map_sum id (map p_value)
     (update_parameters 1 (1 / 10) (9 / 10)
        [example_parameter\<lparr>p_type := from_file, sampling_data := [(0, Val 0), (2, NaN)]\<rparr>])
     = Inl AssertionError"
  by (simp add: update_parameter_def example_parameter_def Let_def np_interp_def
      store_new_value_def)

section \<open>Loading a stored vector\<close>















section \<open>Rollback\<close>







section \<open>The negative-value policy\<close>



lemma monolithic_solve_unfold:
  "monolithic_solve S m =
     (case attempt S m of Fatal e \<Rightarrow> Inl e | Accepted m' \<Rightarrow> Inr m'
      | Retry m' \<Rightarrow> monolithic_solve S m')"
  by (rule monolithic_solve.simps)





section \<open>The clock over accepted steps\<close>

lemma attempt_Accepted:
  assumes "attempt S m = Accepted m'"
  shows "\<exists>m2. prelude m = Inr m2 \<and> time_precision m' = time_precision m \<and>
     self_dt m' = rounded_decimal (time_precision m) (self_dt m2) \<and>
     self_t m' = rounded_decimal (time_precision m)
                   (self_t m + rounded_decimal (time_precision m) (self_dt m2)) \<and>
     tvec m' = tvec m @ [self_t m'] \<and> dtvec m' = dtvec m @ [self_dt m']"
proof -
  from assms obtain m2 where p: "prelude m = Inr m2"
    by (auto simp: attempt_def split: sum.splits)
  note f = prelude_Inr [OF p]
  from assms p obtain m3 where u: "update_time_dependent_parameters (forward_time_step m2) = Inr m3"
    by (auto simp: attempt_def Let_def split: sum.splits)
  then obtain qs where m3: "m3 = (forward_time_step m2)\<lparr>pc := qs\<rparr>"
    by (blast dest: update_time_dependent_parameters_Inr)
  obtain s u' where S: "S m3 = (s, u')" by (cases "S m3")
  define m4 where "m4 = m3\<lparr>solver := s, u_u := u'\<rparr>"
  define m5 where "m5 = m4\<lparr>idx_nl := idx_nl m4 @ [its s], idx_l := idx_l m4 @ [ksp_its s]\<rparr>"
  have c: "check_solution m5 = Accepted m' \<or> m' = update_solution [N] U m4"
    using assms p u S by (auto simp: attempt_def Let_def m4_def m5_def split: if_splits)
  have k: "time_precision k = time_precision m \<and>
     self_dt k = rounded_decimal (time_precision m) (self_dt m2) \<and>
     self_t k = rounded_decimal (time_precision m)
                   (self_t m + rounded_decimal (time_precision m) (self_dt m2)) \<and>
     tvec k = tvec m @ [self_t k] \<and> dtvec k = dtvec m @ [self_dt k]"
    if "k = m4 \<or> k = m5" for k
    using that by (auto simp: m5_def m4_def m3 forward_time_step_eq f)
  from c have "time_precision m' = time_precision m \<and>
     self_dt m' = rounded_decimal (time_precision m) (self_dt m2) \<and>
     self_t m' = rounded_decimal (time_precision m)
                   (self_t m + rounded_decimal (time_precision m) (self_dt m2)) \<and>
     tvec m' = tvec m @ [self_t m'] \<and> dtvec m' = dtvec m @ [self_dt m']"
  proof
    assume "check_solution m5 = Accepted m'"
    then show ?thesis
      using k [of m5]
      by (auto simp: check_solution_def fail_and_retry_def Let_def assign_u_def get_u_def
          split: if_splits sum.splits)
  next
    assume "m' = update_solution [N] U m4"
    then show ?thesis using k [of m4] by (simp add: assign_u_def get_u_def)
  qed
  with p show ?thesis by blast
qed

lemma sorted_wrt_less_last:
  "sorted_wrt (<) xs \<Longrightarrow> x \<in> set xs \<Longrightarrow> x \<le> last (xs :: rat list)"
proof (induction xs)
  case Nil
  then show ?case by simp
next
  case (Cons y ys)
  show ?case
  proof (cases "ys = []")
    case True
    with Cons.prems show ?thesis by simp
  next
    case False
    then have l: "last ys \<in> set ys" by simp
    from Cons.prems(1) l have yl: "y < last ys" and sy: "sorted_wrt (<) ys" by auto
    from Cons.prems(2) have "x = y \<or> x \<in> set ys" by simp
    then have "x \<le> last ys"
    proof
      assume "x = y"
      with yl show ?thesis by simp
    next
      assume "x \<in> set ys"
      with sy show ?thesis by (rule Cons.IH)
    qed
    with False show ?thesis by simp
  qed
qed

lemma clock_invD:
  assumes "clock_inv m"
  shows "rounded_decimal (time_precision m) (self_dt m) = self_dt m"
    "rounded_decimal (time_precision m) (self_t m) = self_t m"
    "tvec m \<noteq> []" "last (tvec m) = self_t m" "length (dtvec m) = length (tvec m)"
    "self_t m = hd (tvec m) + sum_list (tl (dtvec m))"
    "\<forall>d \<in> set (tl (dtvec m)). 0 < d" "sorted_wrt (<) (tvec m)"
  using assms unfolding clock_inv_def by blast+

lemma clock_inv_prelude:
  assumes "clock_inv m" and "prelude m = Inr m2"
  shows "rounded_decimal (time_precision m) (self_dt m2) = self_dt m2"
  using prelude_Inr(12) [OF assms(2)] clock_invD(1) [OF assms(1)]
  by (auto simp: rounded_decimal_idem)

lemma clock_inv_Accepted:
  assumes inv: "clock_inv m" and a: "attempt S m = Accepted m'"
  shows "clock_inv m' \<and> tvec m' = tvec m @ [self_t m'] \<and> dtvec m' = dtvec m @ [self_dt m'] \<and>
         0 < self_dt m' \<and> self_t m' = self_t m + self_dt m'"
proof -
  define p where "p = time_precision m"
  from attempt_Accepted [OF a] obtain m2 where m2: "prelude m = Inr m2"
    and p': "time_precision m' = p"
    and d: "self_dt m' = rounded_decimal p (self_dt m2)"
    and t: "self_t m' = rounded_decimal p (self_t m + rounded_decimal p (self_dt m2))"
    and tv: "tvec m' = tvec m @ [self_t m']" and dv: "dtvec m' = dtvec m @ [self_dt m']"
    unfolding p_def by blast
  have q: "rounded_decimal p (self_dt m2) = self_dt m2"
    using clock_inv_prelude [OF inv m2] by (simp add: p_def)
  have pos: "0 < self_dt m2" by (rule prelude_Inr(1) [OF m2])
  have d': "self_dt m' = self_dt m2" using d q by simp
  note I = clock_invD [OF inv]
  have tq: "rounded_decimal p (self_t m) = self_t m" using I(2) by (simp add: p_def)
  have "rounded_decimal p (rounded_decimal p (self_t m) + rounded_decimal p (self_dt m2))
          = rounded_decimal p (self_t m) + rounded_decimal p (self_dt m2)"
    by (rule rounded_decimal_add)
  then have t': "self_t m' = self_t m + self_dt m'" using t q tq d' by simp
  have ne: "tvec m \<noteq> []" "dtvec m \<noteq> []" using I(3,5) by auto
  have below: "x < self_t m'" if "x \<in> set (tvec m)" for x
  proof -
    have "x \<le> last (tvec m)" using I(8) that by (rule sorted_wrt_less_last)
    then have "x \<le> self_t m" by (simp only: I(4))
    then show ?thesis using t' pos d' by simp
  qed
  have "rounded_decimal p (self_t m') = self_t m'" unfolding t by (rule rounded_decimal_idem)
  moreover have "rounded_decimal p (self_dt m') = self_dt m'" using d' q by simp
  moreover have "self_t m' = hd (tvec m') + sum_list (tl (dtvec m'))"
  proof -
    have "hd (tvec m') = hd (tvec m)" using ne by (simp add: tv)
    moreover have "sum_list (tl (dtvec m')) = sum_list (tl (dtvec m)) + self_dt m'"
      using ne by (simp add: dv)
    ultimately show ?thesis using I(6) t' by simp
  qed
  moreover have "\<forall>d\<in>set (tl (dtvec m')). 0 < d"
    using I(7) ne pos d' by (auto simp: dv)
  moreover have "sorted_wrt (<) (tvec m')"
    using I(8) below by (simp add: tv sorted_wrt_append)
  moreover have "length (dtvec m') = length (tvec m')"
    using I(5) by (simp add: tv dv)
  moreover have "tvec m' \<noteq> []" "last (tvec m') = self_t m'" by (simp_all add: tv)
  ultimately have "clock_inv m'"
    unfolding clock_inv_def [of m'] p' by blast
  with tv dv pos d' t' show ?thesis by simp
qed

lemma clock_inv_Retry:
  assumes inv: "clock_inv m" and a: "attempt S m = Retry m'"
  shows "clock_inv m' \<and> tvec m' = tvec m \<and> dtvec m' = dtvec m \<and> self_t m' = self_t m"
proof -
  from attempt_Retry [OF a] obtain m2 :: model where
    p': "time_precision m' = time_precision m"
    and d: "self_dt m' = rounded_decimal (time_precision m)
                    (rounded_decimal (time_precision m) (self_dt m2) * (1 / 5))"
    and t: "self_t m' = last (tvec m)" and tv: "tvec m' = tvec m" and dv: "dtvec m' = dtvec m"
    by blast
  note I = clock_invD [OF inv]
  have q: "rounded_decimal (time_precision m) (self_dt m') = self_dt m'"
    unfolding d by (rule rounded_decimal_idem)
  have t': "self_t m' = self_t m" using t I(4) by simp
  have "clock_inv m'"
    unfolding clock_inv_def [of m'] p' tv dv t' using q I by blast
  with tv dv t' show ?thesis by simp
qed

lemma clock_inv_monolithic_solve:
  "clock_inv m \<Longrightarrow> monolithic_solve S m = Inr m' \<Longrightarrow>
     clock_inv m' \<and> tvec m' = tvec m @ [self_t m'] \<and> dtvec m' = dtvec m @ [self_dt m'] \<and>
     0 < self_dt m' \<and> self_t m' = self_t m + self_dt m'"
proof (induction S m rule: monolithic_solve.induct)
  case (1 S m)
  show ?case
  proof (cases "attempt S m")
    case (Fatal e)
    with "1.prems"(2) show ?thesis by (simp add: monolithic_solve_unfold [of S m])
  next
    case (Accepted k)
    with "1.prems"(2) have "k = m'" by (simp add: monolithic_solve_unfold [of S m])
    with Accepted clock_inv_Accepted [OF "1.prems"(1)] show ?thesis by simp
  next
    case (Retry k)
    with "1.prems"(2) have r: "monolithic_solve S k = Inr m'"
      by (simp add: monolithic_solve_unfold [of S m])
    from clock_inv_Retry [OF "1.prems"(1) Retry] have k: "clock_inv k" "tvec k = tvec m"
      "dtvec k = dtvec m" "self_t k = self_t m" by simp_all
    from "1.IH" [OF Retry k(1) r] k show ?thesis by simp
  qed
qed

lemma rounded_decimal_zero: "rounded_decimal p 0 = 0"
  by (simp add: rounded_decimal_def round_half_even_def)

lemma clock_inv_initialize:
  "clock_inv (initialize initial_dt final m0)" "tvec (initialize initial_dt final m0) = [0]"
  by (simp_all add: clock_inv_def initialize_def Let_def rounded_decimal_zero rounded_decimal_idem)

lemma steps_clock_inv:
  "steps S k (initialize initial_dt final m0) = Inr m \<Longrightarrow>
     clock_inv m \<and> length (tvec m) = Suc k \<and> hd (tvec m) = 0"
proof (induction k arbitrary: m)
  case 0
  then show ?case using clock_inv_initialize [of initial_dt final m0] by simp
next
  case (Suc k)
  then obtain m1 where s: "steps S k (initialize initial_dt final m0) = Inr m1"
    and ms: "monolithic_solve S m1 = Inr m"
    by (auto split: sum.splits)
  from Suc.IH [OF s] have i: "clock_inv m1" "length (tvec m1) = Suc k" "hd (tvec m1) = 0"
    by simp_all
  from clock_inv_monolithic_solve [OF i(1) ms] i(2,3) show ?case
    by (cases "tvec m1") auto
qed

lemma example_two_steps:
  "\<exists>m. steps example_solver 2 (initialize (1 / 10) 1 example_model) = Inr m"
  by (simp add: numeral_2_eq_2 monolithic_solve_unfold attempt_def prelude_def
      adjust_dt_if_prescribed_def adjust_dt_if_pass_tfinal_def forward_time_step_eq
      update_time_dependent_parameters_def check_solution_def fail_and_retry_def
      reset_timestep_eq example_solver_def example_model_def initialize_def Let_def
      negVals_def neg_tol_def clamp_negative_def set_dt_eq
      rounded_decimal_def round_half_even_def assign_u_def get_u_def)

text \<open>
  C6.  Start from \<^verbatim>\<open>initialize\<close> (time zero) and let \<open>k\<close> calls of \<^verbatim>\<open>monolithic_solve\<close> return,
  that is, \<open>k\<close> steps be accepted, failed attempts in between being rolled back.  Then the
  history \<^verbatim>\<open>tvec\<close> holds the \<open>k + 1\<close> accepted times, it starts at 0, increases strictly and
  ends at the current \<open>t\<close>; \<open>t\<close> is the sum of the \<open>k\<close> accepted step sizes recorded in
  \<^verbatim>\<open>dtvec\<close> after its initial entry, and each of them is positive.  A further accepted step
  moves \<open>t\<close> forward by its positive \<open>dt\<close>.  A call whose step size, after the adjustments,
  is not positive raises ValueError whatever the solver is.
\<close>

theorem monotonic_clock:
  assumes "steps S k (initialize initial_dt final m0) = Inr m"
  shows "sorted_wrt (<) (tvec m) \<and> hd (tvec m) = 0 \<and> last (tvec m) = self_t m \<and>
         length (tvec m) = Suc k \<and> length (dtvec m) = Suc k \<and>
         self_t m = sum_list (tl (dtvec m)) \<and> (\<forall>d\<in>set (tl (dtvec m)). 0 < d) \<and>
         (\<forall>m'. monolithic_solve S m = Inr m' \<longrightarrow>
            0 < self_dt m' \<and> self_t m' = self_t m + self_dt m' \<and> self_t m < self_t m') \<and>
         (\<forall>m1. failed_to_converge m1 \<and> self_dt m1 \<le> 0 \<longrightarrow>
            monolithic_solve S m1 = Inl ValueError) \<and>
         (\<forall>m1 m2. \<not> failed_to_converge m1 \<and>
            adjust_dt_if_prescribed (m1\<lparr>self_idx := self_idx m1 + 1\<rparr>) = Inr m2 \<and>
            self_dt (adjust_dt_if_pass_tfinal m2) \<le> 0 \<longrightarrow>
            monolithic_solve S m1 = Inl ValueError)"
proof -
  from steps_clock_inv [OF assms] have inv: "clock_inv m" and len: "length (tvec m) = Suc k"
    and h: "hd (tvec m) = 0" by simp_all
  note I = clock_invD [OF inv]
  have sum: "self_t m = sum_list (tl (dtvec m))" using I(6) h by simp
  have next_step: "0 < self_dt m' \<and> self_t m' = self_t m + self_dt m' \<and> self_t m < self_t m'"
    if "monolithic_solve S m = Inr m'" for m'
    using clock_inv_monolithic_solve [OF inv that] by simp
  have r1: "monolithic_solve S m1 = Inl ValueError"
    if "failed_to_converge m1 \<and> self_dt m1 \<le> 0" for m1
    using that by (subst monolithic_solve_unfold) (simp add: attempt_def prelude_failed)
  have r2: "monolithic_solve S m1 = Inl ValueError"
    if "\<not> failed_to_converge m1 \<and>
        adjust_dt_if_prescribed (m1\<lparr>self_idx := self_idx m1 + 1\<rparr>) = Inr m2 \<and>
        self_dt (adjust_dt_if_pass_tfinal m2) \<le> 0" for m1 m2
    using that by (subst monolithic_solve_unfold) (simp add: attempt_def prelude_def Let_def)
  from I(8) h I(4) len I(5) sum I(7) next_step r1 r2 show ?thesis by simp blast
qed

theorem monotonic_clock_witness:
  "\<exists>m. steps example_solver 2 (initialize (1 / 10) 1 example_model) = Inr m \<and>
       sorted_wrt (<) (tvec m) \<and> length (tvec m) = 3 \<and> self_t m = sum_list (tl (dtvec m))"
proof -
  from example_two_steps obtain m where
    m: "steps example_solver 2 (initialize (1 / 10) 1 example_model) = Inr m" ..
  from monotonic_clock [OF m] m show ?thesis by auto
qed

end
